theory Spec2Isabelle
  imports Complex_Main "HOL-Library.AList"
begin

section \<open>JavaScript values\<close>

text \<open>
  The program is \<^verbatim>\<open>index.js\<close>: a \<^verbatim>\<open>Map\<close> named \<^verbatim>\<open>internal\<close>, the helper \<^verbatim>\<open>merge\<close>,
  the helper \<^verbatim>\<open>assign\<close> that wraps every method, and the eleven methods of \<^verbatim>\<open>AsyncStorage\<close>.

  A property key is either an array index (the canonical decimal string of a number
  below \<open>2^32 - 1\<close>, written \<open>Idx i\<close>) or any other string (\<open>Name s\<close>).
\<close>

datatype key = Idx nat | Name string

text \<open>
  The values the methods can meet: the primitives, arrays, plain objects (the list holds
  the own properties in creation order), functions (only their identity matters) and
  \<open>JBox p ps\<close>: the wrapper object that \<^verbatim>\<open>Object.assign\<close> makes of a primitive \<open>p\<close>, or the
  array \<open>p\<close>, with the further own properties \<open>ps\<close> that were added to it (for an array:
  names, and indices beyond a hole). A number is a rational: the code only asks whether
  it is zero.
\<close>

datatype jsval =
    JUndefined
  | JNull
  | JBool bool
  | JNum rat
  | JStr string
  | JArr "jsval list"
  | JObj "(key \<times> jsval) list"
  | JBox jsval "(key \<times> jsval) list"
  | JFun nat

text \<open>
  What a method throws. \<open>Error m\<close> is \<^verbatim>\<open>new Error(m)\<close>; \<open>TypeError\<close> and \<open>SyntaxError\<close> are
  thrown by the runtime. \<open>Unmodelled\<close> is not an error of the program: it marks a run that
  leaves the fragment of JavaScript described here. Such a run reads a property that a
  value inherits (the value read is an object of the runtime, shared among all calls),
  assigns the prototype or the length of an object, or calls a function supplied by the
  caller.
\<close>

datatype error = Error string | TypeError | SyntaxError | Unmodelled

fun typeof :: "jsval \<Rightarrow> string" where
  "typeof JUndefined = ''undefined''"
| "typeof JNull = ''object''"
| "typeof (JBool b) = ''boolean''"
| "typeof (JNum n) = ''number''"
| "typeof (JStr s) = ''string''"
| "typeof (JArr xs) = ''object''"
| "typeof (JObj ps) = ''object''"
| "typeof (JBox p ps) = ''object''"
| "typeof (JFun f) = ''function''"

text \<open>\<^verbatim>\<open>v instanceof Object\<close>: true of arrays as well as of plain objects.\<close>

fun instanceof_Object :: "jsval \<Rightarrow> bool" where
  "instanceof_Object (JArr xs) = True"
| "instanceof_Object (JObj ps) = True"
| "instanceof_Object (JBox p ps) = True"
| "instanceof_Object (JFun f) = True"
| "instanceof_Object v = False"

text \<open>The values that \<^verbatim>\<open>target || {}\<close> keeps.\<close>

fun truthy :: "jsval \<Rightarrow> bool" where
  "truthy JUndefined = False"
| "truthy JNull = False"
| "truthy (JBool b) = b"
| "truthy (JNum n) = (n \<noteq> 0)"
| "truthy (JStr s) = (s \<noteq> [])"
| "truthy v = True"

fun the_string :: "jsval \<Rightarrow> string" where
  "the_string (JStr s) = s"
| "the_string v = []"

subsection \<open>Own properties\<close>

fun index_of :: "key \<Rightarrow> nat option" where
  "index_of (Idx i) = Some i"
| "index_of (Name n) = None"

fun is_Name :: "key \<Rightarrow> bool" where
  "is_Name (Name n) = True"
| "is_Name (Idx i) = False"

text \<open>The order in which the runtime lists own keys: array indices ascending, then the
  other keys in creation order.\<close>

definition ordered_keys :: "key list \<Rightarrow> key list" where
  "ordered_keys ks =
     map Idx (sort (remdups (List.map_filter index_of ks))) @ remdups (filter is_Name ks)"

text \<open>\<open>own_prop v k\<close> is the own enumerable property \<open>k\<close> of \<open>v\<close>, \<open>None\<close> when there is none.\<close>

fun own_prop :: "jsval \<Rightarrow> key \<Rightarrow> jsval option" where
  "own_prop (JObj ps) k = map_of ps k"
| "own_prop (JArr xs) k =
     (case k of Idx i \<Rightarrow> if i < length xs then Some (xs ! i) else None | Name n \<Rightarrow> None)"
| "own_prop (JStr s) k =
     (case k of Idx i \<Rightarrow> if i < length s then Some (JStr [s ! i]) else None | Name n \<Rightarrow> None)"
| "own_prop (JBox p ps) k =
     (case own_prop p k of Some v \<Rightarrow> Some v | None \<Rightarrow> map_of ps k)"
| "own_prop v k = None"

fun own_keys :: "jsval \<Rightarrow> key list" where
  "own_keys (JObj ps) = ordered_keys (map fst ps)"
| "own_keys (JArr xs) = map Idx [0..<length xs]"
| "own_keys (JStr s) = map Idx [0..<length s]"
| "own_keys (JBox p ps) =
     own_keys p @ filter (\<lambda>k. own_prop p k = None) (ordered_keys (map fst ps))"
| "own_keys v = []"

text \<open>\<^verbatim>\<open>Object.keys(v)\<close>.\<close>

definition Object_keys :: "jsval \<Rightarrow> error + key list" where
  "Object_keys v = (if v = JUndefined \<or> v = JNull then Inl TypeError else Inr (own_keys v))"

text \<open>
  The properties that every value inherits from \<^verbatim>\<open>Object.prototype\<close>. All are functions but
  \<^verbatim>\<open>__proto__\<close>, an accessor that reads and replaces the prototype.
\<close>

definition Object_prototype_names :: "string list" where
  "Object_prototype_names =
     [''__proto__'', ''__defineGetter__'', ''__defineSetter__'', ''__lookupGetter__'',
      ''__lookupSetter__'', ''constructor'', ''hasOwnProperty'', ''isPrototypeOf'',
      ''propertyIsEnumerable'', ''toLocaleString'', ''toString'', ''valueOf'']"

fun plain_object :: "jsval \<Rightarrow> bool" where
  "plain_object (JObj ps) = True"
| "plain_object v = False"

text \<open>The \<^verbatim>\<open>length\<close> of an array or of a string.\<close>

fun length_of :: "jsval \<Rightarrow> nat option" where
  "length_of (JArr xs) = Some (length xs)"
| "length_of (JStr s) = Some (length s)"
| "length_of v = None"

text \<open>The other values with a \<^verbatim>\<open>length\<close> of their own: functions, and the objects made of an
  array or a string.\<close>

fun has_length :: "jsval \<Rightarrow> bool" where
  "has_length (JFun f) = True"
| "has_length (JBox p ps) = (length_of p \<noteq> None)"
| "has_length v = False"

text \<open>
  \<open>inherits builtin v n\<close>: the value \<open>v\<close>, which has no own enumerable property \<open>n\<close>, finds
  \<open>n\<close> all the same: on \<^verbatim>\<open>Object.prototype\<close>; or, unless \<open>v\<close> is a plain object, on the
  prototype of its kind; or as its \<^verbatim>\<open>length\<close>. The parameter \<open>builtin\<close> is the runtime's table
  of the names that the prototypes of arrays, strings, numbers, booleans and functions
  define (one table for all of them: a name of any of these prototypes counts for each
  of these kinds).
\<close>

definition inherits :: "(string \<Rightarrow> bool) \<Rightarrow> jsval \<Rightarrow> string \<Rightarrow> bool" where
  "inherits builtin v n =
     (n \<in> set Object_prototype_names \<or> (\<not> plain_object v \<and> builtin n)
      \<or> (n = ''length'' \<and> has_length v))"

text \<open>
  \<^verbatim>\<open>v[k]\<close>: the own property, else the \<^verbatim>\<open>length\<close> of an array or string, else what \<open>v\<close>
  inherits, else \<^verbatim>\<open>undefined\<close>. An inherited property is a function or a prototype of the
  runtime: \<^verbatim>\<open>merge\<close> goes on to write the incoming properties into that shared object and to
  copy what earlier calls wrote there, so the run depends on more than its arguments.
\<close>

definition get_prop :: "(string \<Rightarrow> bool) \<Rightarrow> jsval \<Rightarrow> key \<Rightarrow> error + jsval" where
  "get_prop builtin v k =
     (if v = JUndefined \<or> v = JNull then Inl TypeError
      else case own_prop v k of
             Some x \<Rightarrow> Inr x
           | None \<Rightarrow>
               (case k of
                  Idx i \<Rightarrow> Inr JUndefined
                | Name n \<Rightarrow>
                    (case (if n = ''length'' then length_of v else None) of
                       Some l \<Rightarrow> Inr (JNum (of_nat l))
                     | None \<Rightarrow> if inherits builtin v n then Inl Unmodelled
                               else Inr JUndefined)))"

section \<open>The store\<close>

text \<open>
  \<^verbatim>\<open>const internal = new Map()\<close>: keys in insertion order; \<^verbatim>\<open>set\<close> on a present key keeps
  its place. Every value that the methods put there is a string. Keys are compared as
  values (for the string keys of the interface that is what the \<^verbatim>\<open>Map\<close> does).
\<close>

type_synonym store = "(jsval \<times> string) list"

definition has :: "store \<Rightarrow> jsval \<Rightarrow> bool" where
  "has s name = (map_of s name \<noteq> None)"

text \<open>What a method returns: a value, or the \<^verbatim>\<open>Map\<close> itself (\<^verbatim>\<open>internal.set\<close> returns it).\<close>

datatype result = Ret jsval | RetMap

text \<open>The parts of the runtime that the methods call.\<close>

record runtime =
  builtin :: "string \<Rightarrow> bool"
  JSON_text :: "string \<Rightarrow> jsval option"
  JSON_stringify :: "jsval \<Rightarrow> string"

definition arg :: "nat \<Rightarrow> jsval list \<Rightarrow> jsval" where
  "arg i args = (if i < length args then args ! i else JUndefined)"

text \<open>The receiver of \<^verbatim>\<open>names.map(...)\<close> and \<^verbatim>\<open>pairs.forEach(...)\<close>: the elements of an array;
  anything else has no such method, unless the caller put a function there.\<close>

definition array_elems :: "string \<Rightarrow> jsval \<Rightarrow> error + jsval list" where
  "array_elems m v =
     (case v of
        JArr xs \<Rightarrow> Inr xs
      | _ \<Rightarrow> (case own_prop v (Name m) of Some (JFun f) \<Rightarrow> Inl Unmodelled | _ \<Rightarrow> Inl TypeError))"

definition getItem :: "jsval list \<Rightarrow> store \<Rightarrow> (error + result) \<times> store" where
  "getItem args s =
     (let name = arg 0 args in
      if \<not> has s name then (Inr (Ret JNull), s)
      else (Inr (Ret (JStr (the (map_of s name)))), s))"

definition setItem :: "jsval list \<Rightarrow> store \<Rightarrow> (error + result) \<times> store" where
  "setItem args s =
     (let name = arg 0 args; value = arg 1 args in
      if typeof value \<noteq> ''string''
      then (Inl (Error ''AsyncStorage requires strings to be stored''), s)
      else (Inr RetMap, AList.update name (the_string value) s))"

definition removeItem :: "jsval list \<Rightarrow> store \<Rightarrow> (error + result) \<times> store" where
  "removeItem args s =
     (let name = arg 0 args in (Inr (Ret (JBool (has s name))), AList.delete name s))"

definition multiGet :: "jsval list \<Rightarrow> store \<Rightarrow> (error + result) \<times> store" where
  "multiGet args s =
     (case array_elems ''map'' (arg 0 args) of
        Inl e \<Rightarrow> (Inl e, s)
      | Inr names \<Rightarrow>
          (Inr (Ret (JArr (map (\<lambda>name.
             JArr [name, if has s name then JStr (the (map_of s name)) else JNull]) names))), s))"

text \<open>The body of \<^verbatim>\<open>pairs.forEach\<close> in \<^verbatim>\<open>multiSet\<close>, pair after pair; a throw ends the loop and
  keeps what was stored before.\<close>

fun multiSet_forEach :: "(string \<Rightarrow> bool) \<Rightarrow> jsval list \<Rightarrow> store \<Rightarrow> error option \<times> store" where
  "multiSet_forEach b [] s = (None, s)"
| "multiSet_forEach b (pair # pairs) s =
     (case get_prop b pair (Idx 1) of
        Inl e \<Rightarrow> (Some e, s)
      | Inr value \<Rightarrow>
          if typeof value \<noteq> ''string''
          then (Some (Error ''AsyncStorage requires strings to be stored''), s)
          else (case get_prop b pair (Idx 0) of
                  Inl e \<Rightarrow> (Some e, s)
                | Inr name \<Rightarrow> multiSet_forEach b pairs (AList.update name (the_string value) s)))"

definition multiSet :: "runtime \<Rightarrow> jsval list \<Rightarrow> store \<Rightarrow> (error + result) \<times> store" where
  "multiSet rt args s =
     (case array_elems ''forEach'' (arg 0 args) of
        Inl e \<Rightarrow> (Inl e, s)
      | Inr pairs \<Rightarrow>
          (case multiSet_forEach (builtin rt) pairs s of
             (Some e, s') \<Rightarrow> (Inl e, s')
           | (None, s') \<Rightarrow> (Inr (Ret (arg 0 args)), s')))"

text \<open>\<^verbatim>\<open>names.map(name => internal.delete(name))\<close>: each \<^verbatim>\<open>delete\<close> sees the deletions before it.\<close>

fun multiRemove_map :: "jsval list \<Rightarrow> store \<Rightarrow> bool list \<times> store" where
  "multiRemove_map [] s = ([], s)"
| "multiRemove_map (name # names) s =
     (let (bs, s') = multiRemove_map names (AList.delete name s) in (has s name # bs, s'))"

definition multiRemove :: "jsval list \<Rightarrow> store \<Rightarrow> (error + result) \<times> store" where
  "multiRemove args s =
     (case array_elems ''map'' (arg 0 args) of
        Inl e \<Rightarrow> (Inl e, s)
      | Inr names \<Rightarrow>
          (let (bs, s') = multiRemove_map names s in (Inr (Ret (JArr (map JBool bs))), s')))"

definition getAllKeys :: "jsval list \<Rightarrow> store \<Rightarrow> (error + result) \<times> store" where
  "getAllKeys args s = (Inr (Ret (JArr (map fst s))), s)"

definition clear :: "jsval list \<Rightarrow> store \<Rightarrow> (error + result) \<times> store" where
  "clear args s = (Inr (Ret JUndefined), [])"

definition flushGetRequests :: "jsval list \<Rightarrow> store \<Rightarrow> (error + result) \<times> store" where
  "flushGetRequests args s = (Inr (Ret JUndefined), s)"

section \<open>The deep merge\<close>

subsection \<open>\<^verbatim>\<open>Object.assign\<close>\<close>

text \<open>
  The assignment \<^verbatim>\<open>t.__proto__ = v\<close> on an object with no own property of that name runs
  the accessor of \<^verbatim>\<open>Object.prototype\<close>: a value that is neither an object nor \<^verbatim>\<open>null\<close> is
  ignored and \<open>t\<close> stays as it is; any other value replaces the prototype of \<open>t\<close>.
\<close>

definition set_proto :: "jsval \<Rightarrow> jsval \<Rightarrow> error + jsval" where
  "set_proto t v = (if instanceof_Object v \<or> v = JNull then Inl Unmodelled else Inr t)"

text \<open>
  \<open>store_prop t k v\<close> is the assignment \<^verbatim>\<open>t[k] = v\<close> on the object \<open>t\<close> in every other
  case. A plain object overwrites an own property in place and adds a new one last. An
  array takes its elements, the next one, and, as further properties, an index beyond it
  (leaving a hole) or a name; assigning its \<^verbatim>\<open>length\<close> would cut or stretch it. The
  characters and the \<^verbatim>\<open>length\<close> of a wrapped string are read-only: \<^verbatim>\<open>Object.assign\<close> throws a
  \<^verbatim>\<open>TypeError\<close> there.
\<close>

fun store_prop :: "jsval \<Rightarrow> key \<Rightarrow> jsval \<Rightarrow> error + jsval" where
  "store_prop (JObj ps) k v = Inr (JObj (AList.update k v ps))"
| "store_prop (JArr xs) k v =
     (case k of
        Idx i \<Rightarrow> if i < length xs then Inr (JArr (xs[i := v]))
                 else if i = length xs then Inr (JArr (xs @ [v]))
                 else Inr (JBox (JArr xs) [(k, v)])
      | Name n \<Rightarrow> if n = ''length'' then Inl Unmodelled else Inr (JBox (JArr xs) [(k, v)]))"
| "store_prop (JBox (JArr xs) ps) k v =
     (case k of
        Idx i \<Rightarrow> if i < length xs then Inr (JBox (JArr (xs[i := v])) ps)
                 else Inr (JBox (JArr xs) (AList.update k v ps))
      | Name n \<Rightarrow> if n = ''length'' then Inl Unmodelled
                  else Inr (JBox (JArr xs) (AList.update k v ps)))"
| "store_prop (JBox (JStr s) ps) k v =
     (case k of
        Idx i \<Rightarrow> if i < length s then Inl TypeError
                 else Inr (JBox (JStr s) (AList.update k v ps))
      | Name n \<Rightarrow> if n = ''length'' then Inl TypeError
                  else Inr (JBox (JStr s) (AList.update k v ps)))"
| "store_prop (JBox (JNum n) ps) k v = Inr (JBox (JNum n) (AList.update k v ps))"
| "store_prop (JBox (JBool x) ps) k v = Inr (JBox (JBool x) (AList.update k v ps))"
| "store_prop t k v = Inl Unmodelled"

text \<open>\<open>put t k v\<close> is the assignment \<^verbatim>\<open>t[k] = v\<close> that \<^verbatim>\<open>Object.assign\<close> performs on the
  object \<open>t\<close>.\<close>

definition put :: "jsval \<Rightarrow> key \<Rightarrow> jsval \<Rightarrow> error + jsval" where
  "put t k v =
     (if k = Name ''__proto__'' \<and> own_prop t k = None \<and> instanceof_Object t then set_proto t v
      else store_prop t k v)"

text \<open>The object that \<^verbatim>\<open>Object.assign\<close> makes of its first argument.\<close>

definition to_object :: "jsval \<Rightarrow> error + jsval" where
  "to_object v =
     (case v of
        JUndefined \<Rightarrow> Inl TypeError
      | JNull \<Rightarrow> Inl TypeError
      | JBool x \<Rightarrow> Inr (JBox v [])
      | JNum n \<Rightarrow> Inr (JBox v [])
      | JStr s \<Rightarrow> Inr (JBox v [])
      | JFun f \<Rightarrow> Inl Unmodelled
      | _ \<Rightarrow> Inr v)"

fun put_all :: "jsval \<Rightarrow> jsval \<Rightarrow> key list \<Rightarrow> error + jsval" where
  "put_all t src [] = Inr t"
| "put_all t src (k # ks) =
     (case put t k (the (own_prop src k)) of
        Inl e \<Rightarrow> Inl e
      | Inr t' \<Rightarrow> put_all t' src ks)"

text \<open>\<^verbatim>\<open>Object.assign(tgt, src)\<close>: every own enumerable property of \<open>src\<close>, in the order of
  its keys, is assigned to \<open>tgt\<close>, which is returned.\<close>

definition Object_assign :: "jsval \<Rightarrow> jsval \<Rightarrow> error + jsval" where
  "Object_assign tgt src =
     (case to_object tgt of
        Inl e \<Rightarrow> Inl e
      | Inr t \<Rightarrow> put_all t src (own_keys src))"

subsection \<open>\<^verbatim>\<open>merge\<close>\<close>

text \<open>
  \<^verbatim>\<open>forEach\<close> changes the objects \<^verbatim>\<open>data[key]\<close> in place. \<open>written data upd\<close> is \<open>data\<close> once
  the keys listed in \<open>upd\<close> hold their changed objects.
\<close>

fun rewrite :: "(key \<times> jsval) list \<Rightarrow> key \<times> jsval \<Rightarrow> key \<times> jsval" where
  "rewrite upd (k, v) = (k, case map_of upd k of Some a \<Rightarrow> a | None \<Rightarrow> v)"

fun written :: "jsval \<Rightarrow> (key \<times> jsval) list \<Rightarrow> jsval" where
  "written (JObj ps) upd = JObj (map (rewrite upd) ps)"
| "written (JArr xs) upd = JArr (map snd (map (rewrite upd) (zip (map Idx [0..<length xs]) xs)))"
| "written (JBox p ps) upd = JBox (written p upd) (map (rewrite upd) ps)"
| "written v upd = v"

text \<open>\<open>each f xs\<close> runs \<open>f\<close> on the elements in order; the first throw ends the loop.\<close>

fun each :: "('a \<Rightarrow> error + 'b) \<Rightarrow> 'a list \<Rightarrow> error + 'b list" where
  "each f [] = Inr []"
| "each f (x # xs) =
     (case f x of
        Inl e \<Rightarrow> Inl e
      | Inr y \<Rightarrow> (case each f xs of Inl e \<Rightarrow> Inl e | Inr ys \<Rightarrow> Inr (y # ys)))"

lemma each_cong [fundef_cong]:
  "xs = ys \<Longrightarrow> (\<And>x. x \<in> set ys \<Longrightarrow> f x = g x) \<Longrightarrow> each f xs = each g ys"
  by (induction ys arbitrary: xs) (auto split: sum.splits)

lemma size_map_of:
  "map_of ps k = Some v \<Longrightarrow> size v < Suc (size_list (size_prod (\<lambda>_. 0) size) ps)"
  by (induction ps) (auto split: if_splits)

lemma size_nth: "i < length xs \<Longrightarrow> size (xs ! i) \<le> size_list size xs"
  using size_list_estimation'[of "xs ! i" xs "size (xs ! i)" size] by simp

lemma size_own_prop:
  "own_prop d k = Some v \<Longrightarrow> instanceof_Object v \<Longrightarrow> size v < size d"
proof (induction d arbitrary: v)
  case (JArr xs)
  then show ?case
    by (auto split: key.splits if_splits simp: less_Suc_eq_le size_nth)
next
  case (JObj ps)
  then show ?case using size_map_of[of ps k v] by auto
next
  case (JBox p ps)
  then show ?case using size_map_of[of ps k v] by (auto split: option.splits)
qed (auto split: key.splits if_splits)

lemma set_map_filter_index_of: "set (List.map_filter index_of ks) = {i. Idx i \<in> set ks}"
proof (induction ks)
  case Nil
  show ?case by (simp add: List.map_filter_simps)
next
  case (Cons k ks)
  then show ?case by (cases k) (auto simp: List.map_filter_simps)
qed

lemma set_ordered_keys: "set (ordered_keys ks) = set ks"
proof -
  have "k \<in> set (ordered_keys ks) \<longleftrightarrow> k \<in> set ks" for k
    by (cases k) (auto simp: ordered_keys_def set_map_filter_index_of)
  then show ?thesis by blast
qed

lemma distinct_ordered_keys: "distinct (ordered_keys ks)"
proof -
  have "Idx i \<notin> set (filter is_Name ks)" for i by auto
  then show ?thesis
    by (auto simp: ordered_keys_def distinct_map inj_on_def)
qed

lemma own_keys_iff: "k \<in> set (own_keys v) \<longleftrightarrow> own_prop v k \<noteq> None"
proof (induction v)
  case (JObj ps)
  show ?case by (simp add: set_ordered_keys map_of_eq_None_iff)
next
  case (JArr xs)
  show ?case by (cases k) auto
next
  case (JStr s)
  show ?case by (cases k) auto
next
  case (JBox p ps)
  have "k \<in> fst ` set ps \<longleftrightarrow> map_of ps k \<noteq> None"
    by (simp add: map_of_eq_None_iff)
  with JBox.IH(1) show ?case
    by (cases "own_prop p k") (simp_all add: set_ordered_keys)
qed simp_all

text \<open>
  \<^verbatim>\<open>
  function merge(target, data) {
    Object.keys(data)
    .filter(key => data[key] instanceof Object)
    .forEach(key => Object.assign(data[key], merge(target[key], data[key])));

    return Object.assign(target || {}, data);
  }
  \<close>
  The result is the returned object together with \<open>data\<close> as the call leaves it: the
  recursive call changes \<^verbatim>\<open>data[key]\<close> before \<^verbatim>\<open>Object.assign\<close> writes into that same object.
  The call also writes into \<^verbatim>\<open>target[key]\<close>; the last line replaces that property of
  \<open>target\<close>, so the returned value does not depend on it.
\<close>

function merge :: "(string \<Rightarrow> bool) \<Rightarrow> jsval \<Rightarrow> jsval \<Rightarrow> error + jsval \<times> jsval" where
  "merge b target data =
     (case Object_keys data of
        Inl e \<Rightarrow> Inl e
      | Inr keys \<Rightarrow>
          (case each (\<lambda>key.
                  case get_prop b target key of
                    Inl e \<Rightarrow> Inl e
                  | Inr tk \<Rightarrow>
                      (case merge b tk (the (own_prop data key)) of
                         Inl e \<Rightarrow> Inl e
                       | Inr (m, dk) \<Rightarrow>
                           (case Object_assign dk m of
                              Inl e \<Rightarrow> Inl e
                            | Inr a \<Rightarrow> Inr (key, a))))
                (filter (\<lambda>key. instanceof_Object (the (own_prop data key))) keys) of
             Inl e \<Rightarrow> Inl e
           | Inr upd \<Rightarrow>
               (let data' = written data upd in
                case Object_assign (if truthy target then target else JObj []) data' of
                  Inl e \<Rightarrow> Inl e
                | Inr r \<Rightarrow> Inr (r, data'))))"
  by pat_completeness auto
termination
proof (relation "measure (\<lambda>(b, target, data). size data)", goal_cases)
  case 1
  show ?case by simp
next
  case (2 b target data keys key tk)
  then have "key \<in> set (own_keys data)" and obj: "instanceof_Object (the (own_prop data key))"
    by (auto simp: Object_keys_def split: if_splits)
  then obtain v where "own_prop data key = Some v"
    by (auto simp: own_keys_iff)
  with obj show ?case
    by (simp add: size_own_prop)
qed

section \<open>The methods that merge\<close>

text \<open>
  \<^verbatim>\<open>JSON.parse(x)\<close>, where \<open>x\<close> is what \<^verbatim>\<open>internal.get\<close> returned or a string. The runtime's
  \<open>JSON_text\<close> reads a JSON text. An absent entry is \<^verbatim>\<open>undefined\<close>, which \<^verbatim>\<open>JSON.parse\<close> reads as
  the text \<^verbatim>\<open>undefined\<close>: not a JSON text, a \<^verbatim>\<open>SyntaxError\<close>.
\<close>

definition JSON_parse :: "runtime \<Rightarrow> string option \<Rightarrow> error + jsval" where
  "JSON_parse rt x =
     (case x of
        None \<Rightarrow> Inl SyntaxError
      | Some text \<Rightarrow> (case JSON_text rt text of None \<Rightarrow> Inl SyntaxError | Some j \<Rightarrow> Inr j))"

definition mergeItem :: "runtime \<Rightarrow> jsval list \<Rightarrow> store \<Rightarrow> (error + result) \<times> store" where
  "mergeItem rt args s =
     (let name = arg 0 args; value = arg 1 args in
      if typeof value \<noteq> ''string''
      then (Inl (Error ''AsyncStorage requires strings to be stored''), s)
      else (case JSON_parse rt (map_of s name) of
              Inl e \<Rightarrow> (Inl e, s)
            | Inr oldValue \<Rightarrow>
                (case JSON_parse rt (Some (the_string value)) of
                   Inl e \<Rightarrow> (Inl e, s)
                 | Inr newValue \<Rightarrow>
                     (case merge (builtin rt) oldValue newValue of
                        Inl e \<Rightarrow> (Inl e, s)
                      | Inr (m, d) \<Rightarrow>
                          (Inr RetMap, AList.update name (JSON_stringify rt m) s)))))"

fun multiMerge_forEach :: "runtime \<Rightarrow> jsval list \<Rightarrow> store \<Rightarrow> error option \<times> store" where
  "multiMerge_forEach rt [] s = (None, s)"
| "multiMerge_forEach rt (pair # pairs) s =
     (case get_prop (builtin rt) pair (Idx 1) of
        Inl e \<Rightarrow> (Some e, s)
      | Inr value \<Rightarrow>
          if typeof value \<noteq> ''string''
          then (Some (Error ''AsyncStorage requires strings to be merged''), s)
          else (case get_prop (builtin rt) pair (Idx 0) of
                  Inl e \<Rightarrow> (Some e, s)
                | Inr name \<Rightarrow>
                    (case JSON_parse rt (map_of s name) of
                       Inl e \<Rightarrow> (Some e, s)
                     | Inr oldValue \<Rightarrow>
                         (case JSON_parse rt (Some (the_string value)) of
                            Inl e \<Rightarrow> (Some e, s)
                          | Inr newValue \<Rightarrow>
                              (case merge (builtin rt) oldValue newValue of
                                 Inl e \<Rightarrow> (Some e, s)
                               | Inr (m, d) \<Rightarrow>
                                   multiMerge_forEach rt pairs
                                     (AList.update name (JSON_stringify rt m) s))))))"

definition multiMerge :: "runtime \<Rightarrow> jsval list \<Rightarrow> store \<Rightarrow> (error + result) \<times> store" where
  "multiMerge rt args s =
     (case array_elems ''forEach'' (arg 0 args) of
        Inl e \<Rightarrow> (Inl e, s)
      | Inr pairs \<Rightarrow>
          (case multiMerge_forEach rt pairs s of
             (Some e, s') \<Rightarrow> (Inl e, s')
           | (None, s') \<Rightarrow> (Inr (Ret JUndefined), s')))"

section \<open>The wrapper\<close>

text \<open>The methods, as \<^verbatim>\<open>assign(name, fn)\<close> registers them.\<close>

datatype operation =
    GetItem | SetItem | MergeItem | RemoveItem | MultiGet | MultiSet | MultiMerge
  | MultiRemove | GetAllKeys | Clear | FlushGetRequests

fun AsyncStorage :: "runtime \<Rightarrow> operation \<Rightarrow> jsval list \<Rightarrow> store \<Rightarrow> (error + result) \<times> store" where
  "AsyncStorage rt GetItem = getItem"
| "AsyncStorage rt SetItem = setItem"
| "AsyncStorage rt MergeItem = mergeItem rt"
| "AsyncStorage rt RemoveItem = removeItem"
| "AsyncStorage rt MultiGet = multiGet"
| "AsyncStorage rt MultiSet = multiSet rt"
| "AsyncStorage rt MultiMerge = multiMerge rt"
| "AsyncStorage rt MultiRemove = multiRemove"
| "AsyncStorage rt GetAllKeys = getAllKeys"
| "AsyncStorage rt Clear = clear"
| "AsyncStorage rt FlushGetRequests = flushGetRequests"

text \<open>How a call ends: the callback is called with \<^verbatim>\<open>(error, result)\<close> (\<open>None\<close> is \<^verbatim>\<open>null\<close>), or
  the promise is resolved or rejected.\<close>

datatype settled = Callback jsval "error option" result | Resolve result | Reject error

definition last_arg :: "jsval list \<Rightarrow> jsval" where
  "last_arg args = (if args = [] then JUndefined else last args)"

text \<open>
  The body of \<^verbatim>\<open>forcedAsync\<close>, run when the runtime reaches the task that \<^verbatim>\<open>setImmediate\<close>
  queued. \<^verbatim>\<open>result\<close> is declared without a value, so it is \<^verbatim>\<open>undefined\<close> when \<^verbatim>\<open>fn\<close> throws.
\<close>

definition forcedAsync ::
  "(jsval list \<Rightarrow> store \<Rightarrow> (error + result) \<times> store) \<Rightarrow> jsval list \<Rightarrow> store \<Rightarrow> settled \<times> store" where
  "forcedAsync fn args s =
     (let callback = (if typeof (last_arg args) = ''function'' then Some (last args) else None);
          args' = (if callback = None then args else butlast args);
          (error, result, s') =
            (case fn args' s of
               (Inl e, s') \<Rightarrow> (Some e, Ret JUndefined, s')
             | (Inr r, s') \<Rightarrow> (None, r, s'))
      in case callback of
           Some cb \<Rightarrow> (Callback cb error result, s')
         | None \<Rightarrow> (case error of Some e \<Rightarrow> (Reject e, s') | None \<Rightarrow> (Resolve result, s')))"

section \<open>Paths\<close>


section \<open>JSON values with plain keys\<close>





section \<open>A runtime for the examples\<close>

text \<open>
  The theorems below hold for every runtime. The examples are evaluated in this one: its
  table of built-in names lists the properties of \<^verbatim>\<open>Object.prototype\<close> and \<^verbatim>\<open>length\<close>, and its
  JSON reader and writer know the texts that the examples use.
\<close>

definition builtin_names :: "string list" where
  "builtin_names =
     [''__proto__'', ''__defineGetter__'', ''__defineSetter__'', ''__lookupGetter__'',
      ''__lookupSetter__'', ''constructor'', ''hasOwnProperty'', ''isPrototypeOf'',
      ''propertyIsEnumerable'', ''toLocaleString'', ''toString'', ''valueOf'', ''length'']"

definition is_builtin :: "string \<Rightarrow> bool" where
  "is_builtin n = (n \<in> set builtin_names)"

definition json_texts :: "(string \<times> jsval) list" where
  \<open>json_texts =
     [(''{}'', JObj []),
      (''{"foo":"bar","deep":{"foo":"bar"}}'',
         JObj [(Name ''foo'', JStr ''bar''), (Name ''deep'', JObj [(Name ''foo'', JStr ''bar'')])]),
      (''{"deep":{"foo":"value"}}'',
         JObj [(Name ''deep'', JObj [(Name ''foo'', JStr ''value'')])]),
      (''{"foo":"bar","deep":{"foo":"value"}}'',
         JObj [(Name ''foo'', JStr ''bar''), (Name ''deep'', JObj [(Name ''foo'', JStr ''value'')])]),
      (''{"a":{"b":{"c":1}}}'',
         JObj [(Name ''a'', JObj [(Name ''b'', JObj [(Name ''c'', JNum 1)])])])]\<close>

definition example_runtime :: runtime where
  "example_runtime =
     \<lparr>builtin = is_builtin,
      JSON_text = map_of json_texts,
      JSON_stringify = (\<lambda>v. case map_of (map prod.swap json_texts) v of
                                Some text \<Rightarrow> text | None \<Rightarrow> [])\<rparr>"

section \<open>Properties of the model\<close>

declare merge.simps [simp del]

subsection \<open>Arguments and the wrapper\<close>

lemma typeof_string_iff: "typeof v = ''string'' \<longleftrightarrow> (\<exists>x. v = JStr x)"
  by (cases v) simp_all

lemma arg_simps: "arg 0 (x # xs) = x" "arg (Suc n) (x # xs) = arg n xs" "arg i [] = JUndefined"
  by (simp_all add: arg_def)

lemma forcedAsync_callback:
  "forcedAsync fn (args @ [JFun f]) s =
     (case fn args s of
        (Inl e, s') \<Rightarrow> (Callback (JFun f) (Some e) (Ret JUndefined), s')
      | (Inr r, s') \<Rightarrow> (Callback (JFun f) None r, s'))"
  by (simp add: forcedAsync_def last_arg_def split: prod.splits sum.splits)

lemma forcedAsync_promise:
  "typeof (last_arg args) \<noteq> ''function'' \<Longrightarrow> forcedAsync fn args s =
     (case fn args s of
        (Inl e, s') \<Rightarrow> (Reject e, s')
      | (Inr r, s') \<Rightarrow> (Resolve r, s'))"
  by (simp add: forcedAsync_def split: prod.splits sum.splits)

subsection \<open>The store\<close>

lemma setItem_string:
  "typeof v = ''string'' \<Longrightarrow> snd (setItem [k, v] s) = AList.update k (the_string v) s"
  by (simp add: setItem_def arg_simps)

lemma get_prop_pair:
  "get_prop b (JArr [k, v]) (Idx 0) = Inr k" "get_prop b (JArr [k, v]) (Idx 1) = Inr v"
  by (simp_all add: get_prop_def)

lemma multiSet_forEach_strings:
  "\<forall>p \<in> set kvs. typeof (snd p) = ''string'' \<Longrightarrow>
     multiSet_forEach b (map (\<lambda>(k, v). JArr [k, v]) kvs) s
       = (None, fold (\<lambda>(k, v) s. snd (setItem [k, v] s)) kvs s)"
proof (induction kvs arbitrary: s)
  case Nil
  show ?case by simp
next
  case (Cons p kvs)
  obtain k v where p: "p = (k, v)" by (cases p)
  with Cons show ?case
    by (simp add: get_prop_pair setItem_string del: One_nat_def)
qed

lemma multiSet_forEach_stops:
  "\<forall>p \<in> set pre. typeof (snd p) = ''string'' \<Longrightarrow> typeof v \<noteq> ''string'' \<Longrightarrow>
     multiSet_forEach b (map (\<lambda>(k, v). JArr [k, v]) (pre @ (k, v) # post)) s
       = (Some (Error ''AsyncStorage requires strings to be stored''),
          fold (\<lambda>(k, v) s. snd (setItem [k, v] s)) pre s)"
proof (induction pre arbitrary: s)
  case Nil
  then show ?case by (simp add: get_prop_pair del: One_nat_def)
next
  case (Cons p pre)
  obtain k' v' where p: "p = (k', v')" by (cases p)
  with Cons show ?case
    by (simp add: get_prop_pair setItem_string del: One_nat_def)
qed

lemma has_delete: "has (AList.delete k s) x = (x \<noteq> k \<and> has s x)"
  by (simp add: has_def delete_conv')

lemma fst_multiRemove_map_Cons:
  "fst (multiRemove_map (k # ks) s) = has s k # fst (multiRemove_map ks (AList.delete k s))"
  by (simp add: split_beta)

lemma snd_multiRemove_map_Cons:
  "snd (multiRemove_map (k # ks) s) = snd (multiRemove_map ks (AList.delete k s))"
  by (simp add: split_beta)

lemma multiRemove_map_length: "length (fst (multiRemove_map ks s)) = length ks"
  by (induction ks arbitrary: s) (simp_all add: fst_multiRemove_map_Cons del: multiRemove_map.simps(2))

lemma multiRemove_map_nth:
  "i < length ks \<Longrightarrow>
     fst (multiRemove_map ks s) ! i = (has s (ks ! i) \<and> ks ! i \<notin> set (take i ks))"
proof (induction ks arbitrary: s i)
  case Nil
  then show ?case by simp
next
  case (Cons k ks)
  show ?case
  proof (cases i)
    case 0
    then show ?thesis by (simp add: fst_multiRemove_map_Cons del: multiRemove_map.simps(2))
  next
    case (Suc j)
    with Cons.prems have "j < length ks" by simp
    from Cons.IH [OF this, of "AList.delete k s"] Suc show ?thesis
      by (auto simp: fst_multiRemove_map_Cons has_delete simp del: multiRemove_map.simps(2))
  qed
qed

lemma multiRemove_map_store: "map_of (snd (multiRemove_map ks s)) = map_of s |` (- set ks)"
proof (induction ks arbitrary: s)
  case Nil
  then show ?case by simp
next
  case (Cons k ks)
  have "map_of (snd (multiRemove_map (k # ks) s)) = map_of (AList.delete k s) |` (- set ks)"
    using Cons.IH [of "AList.delete k s"]
    by (simp add: snd_multiRemove_map_Cons del: multiRemove_map.simps(2))
  also have "\<dots> = map_of s |` (- set (k # ks))"
    by (auto simp: delete_conv' restrict_map_def fun_eq_iff)
  finally show ?case .
qed

lemma mergeItem_absent:
  "map_of s k = None \<Longrightarrow> mergeItem rt [k, JStr v] s = (Inl SyntaxError, s)"
  by (simp add: mergeItem_def arg_simps JSON_parse_def)

lemma multiMerge_result: "fst (multiMerge rt args s) = Inr r \<Longrightarrow> r = Ret JUndefined"
  by (auto simp: multiMerge_def split: sum.splits prod.splits option.splits)

subsection \<open>Own properties after \<^verbatim>\<open>Object.assign\<close>\<close>

lemma distinct_own_keys: "distinct (own_keys v)"
proof (induction v)
  case (JBox p ps)
  then show ?case by (auto simp: distinct_ordered_keys own_keys_iff)
qed (simp_all add: distinct_ordered_keys distinct_map inj_on_def)

lemma own_prop_store_prop:
  assumes "store_prop t k v = Inr t'"
  shows "own_prop t' = (own_prop t)(k \<mapsto> v)"
proof (cases t)
  case (JArr xs)
  with assms show ?thesis
    by (cases k) (auto simp: fun_eq_iff nth_append split: if_splits key.splits)
next
  case (JObj ps)
  with assms show ?thesis
    by (auto simp: fun_eq_iff update_conv')
next
  case (JBox p ps)
  show ?thesis
  proof (cases p)
    case (JArr xs)
    with assms JBox show ?thesis
      by (cases k) (auto simp: fun_eq_iff update_conv' split: if_splits key.splits option.splits)
  next
    case (JStr s)
    with assms JBox show ?thesis
      by (cases k) (auto simp: fun_eq_iff update_conv' split: if_splits key.splits option.splits)
  qed (use assms JBox in \<open>auto simp: fun_eq_iff update_conv'\<close>)
qed (use assms in simp_all)

lemma own_prop_put_cases:
  assumes "put t k v = Inr t'"
  shows "own_prop t' = (own_prop t)(k \<mapsto> v) \<or> (t' = t \<and> k = Name ''__proto__'')"
  using assms own_prop_store_prop [of t k v t']
  by (auto simp: put_def set_proto_def split: if_splits)

lemma own_prop_put:
  "put t k v = Inr t' \<Longrightarrow> k \<noteq> Name ''__proto__'' \<Longrightarrow> own_prop t' = (own_prop t)(k \<mapsto> v)"
  using own_prop_put_cases by blast

lemma own_prop_put_all:
  "put_all t src ks = Inr r \<Longrightarrow> \<forall>k \<in> set ks. own_prop src k \<noteq> None \<Longrightarrow>
     k \<noteq> Name ''__proto__'' \<Longrightarrow>
     own_prop r k = (if k \<in> set ks then own_prop src k else own_prop t k)"
proof (induction ks arbitrary: t)
  case Nil
  then show ?case by simp
next
  case (Cons a ks)
  from Cons.prems(1) obtain t' where
    step: "put t a (the (own_prop src a)) = Inr t'" and rest: "put_all t' src ks = Inr r"
    by (auto split: sum.splits)
  from Cons.prems(2) obtain v where v: "own_prop src a = Some v" by auto
  have t': "own_prop t' = (own_prop t)(a \<mapsto> v) \<or> (t' = t \<and> a = Name ''__proto__'')"
    using own_prop_put_cases [OF step] v by simp
  have "own_prop r k = (if k \<in> set ks then own_prop src k else own_prop t' k)"
    using Cons.IH [OF rest] Cons.prems(2,3) by simp
  with t' v Cons.prems(3) show ?case by auto
qed


lemma own_prop_to_object: "to_object tgt = Inr t \<Longrightarrow> own_prop t = own_prop tgt"
  by (cases tgt) (auto simp: to_object_def fun_eq_iff split: option.splits)

lemma own_prop_Object_assign:
  assumes "Object_assign tgt src = Inr r" and "k \<noteq> Name ''__proto__''"
  shows "own_prop r k = (case own_prop src k of Some v \<Rightarrow> Some v | None \<Rightarrow> own_prop tgt k)"
proof -
  from assms obtain t where t: "to_object tgt = Inr t" and r: "put_all t src (own_keys src) = Inr r"
    by (auto simp: Object_assign_def split: sum.splits)
  have "own_prop r k = (if k \<in> set (own_keys src) then own_prop src k else own_prop t k)"
    using own_prop_put_all [OF r _ assms(2)] by (simp add: own_keys_iff)
  then show ?thesis
    using own_prop_to_object [OF t] by (auto simp: own_keys_iff split: option.splits)
qed




subsection \<open>Own properties of the incoming value after \<^verbatim>\<open>forEach\<close>\<close>

lemma map_of_rewrite:
  "map_of (map (rewrite upd) ps) k =
     (case map_of ps k of None \<Rightarrow> None
      | Some v \<Rightarrow> Some (case map_of upd k of Some a \<Rightarrow> a | None \<Rightarrow> v))"
  by (induction ps) (auto split: option.splits)


lemma own_prop_written_None:
  "own_prop d k = None \<Longrightarrow> own_prop (written d upd) k = None"
proof (induction d)
  case (JArr xs)
  then show ?case by (cases k) (auto split: if_splits)
next
  case (JObj ps)
  then show ?case by (simp add: map_of_rewrite)
next
  case (JBox p ps)
  then show ?case by (auto simp: map_of_rewrite split: option.splits)
qed simp_all

lemma own_prop_written_key:
  "own_prop d k = Some v \<Longrightarrow> instanceof_Object v \<Longrightarrow> map_of upd k = Some a \<Longrightarrow>
     own_prop (written d upd) k = Some a"
proof (induction d)
  case (JArr xs)
  then show ?case by (cases k) (auto split: if_splits)
next
  case (JObj ps)
  then show ?case by (simp add: map_of_rewrite)
next
  case (JStr s)
  then show ?case by (cases k) (auto split: if_splits)
next
  case (JBox p ps)
  then show ?case by (auto simp: map_of_rewrite own_prop_written_None split: option.splits)
qed simp_all


lemma each_keys:
  "each f ks = Inr upd \<Longrightarrow> (\<And>k y. f k = Inr y \<Longrightarrow> fst y = k) \<Longrightarrow> map fst upd = ks"
proof (induction ks arbitrary: upd)
  case Nil
  then show ?case by simp
next
  case (Cons k ks)
  then show ?case by (auto split: sum.splits)
qed

lemma each_member:
  "each f ks = Inr upd \<Longrightarrow> k \<in> set ks \<Longrightarrow> \<exists>y. f k = Inr y \<and> y \<in> set upd"
proof (induction ks arbitrary: upd)
  case Nil
  then show ?case by simp
next
  case (Cons a ks)
  then show ?case by (auto split: sum.splits)
qed

subsection \<open>What \<^verbatim>\<open>merge\<close> returns\<close>

text \<open>
  Where \<^verbatim>\<open>merge\<close> returns: a key whose incoming value is not an instance of \<^verbatim>\<open>Object\<close> holds
  the incoming value; a key whose incoming value is one holds the incoming object after
  the recursive merge was assigned to it; a key that only the target has is kept.
\<close>

lemma merge_cases:
  assumes "merge b t d = Inr (r, d')"
  obtains upd where
    "each (\<lambda>key.
        case get_prop b t key of
          Inl e \<Rightarrow> Inl e
        | Inr tk \<Rightarrow>
            (case merge b tk (the (own_prop d key)) of
               Inl e \<Rightarrow> Inl e
             | Inr (m, dk) \<Rightarrow>
                 (case Object_assign dk m of
                    Inl e \<Rightarrow> Inl e
                  | Inr a \<Rightarrow> Inr (key, a))))
      (filter (\<lambda>key. instanceof_Object (the (own_prop d key))) (own_keys d)) = Inr upd"
    and "d' = written d upd"
    and "Object_assign (if truthy t then t else JObj []) d' = Inr r"
  using assms
  by (subst (asm) merge.simps) (auto simp: Object_keys_def Let_def split: sum.splits if_splits)


lemma merge_recurses:
  assumes "merge b target data = Inr (r, data')"
    and "own_prop data key = Some v" and "instanceof_Object v"
  shows "\<exists>tk m dk a. get_prop b target key = Inr tk \<and> merge b tk v = Inr (m, dk)
           \<and> Object_assign dk m = Inr a
           \<and> (key \<noteq> Name ''__proto__'' \<longrightarrow> own_prop r key = Some a)"
proof -
  let ?f = "\<lambda>key.
        case get_prop b target key of
          Inl e \<Rightarrow> Inl e
        | Inr tk \<Rightarrow>
            (case merge b tk (the (own_prop data key)) of
               Inl e \<Rightarrow> Inl e
             | Inr (m, dk) \<Rightarrow>
                 (case Object_assign dk m of
                    Inl e \<Rightarrow> Inl e
                  | Inr a \<Rightarrow> Inr (key, a)))"
  let ?ks = "filter (\<lambda>key. instanceof_Object (the (own_prop data key))) (own_keys data)"
  from assms(1) obtain upd where
    upd: "each ?f ?ks = Inr upd"
    and d': "data' = written data upd"
    and r: "Object_assign (if truthy target then target else JObj []) data' = Inr r"
    by (rule merge_cases)
  have keys: "map fst upd = ?ks"
    by (rule each_keys [OF upd]) (auto split: sum.splits)
  have "key \<in> set ?ks"
    using assms(2,3) by (simp add: own_keys_iff)
  from each_member [OF upd this] obtain y where y: "?f key = Inr y" "y \<in> set upd"
    by blast
  from y(1) assms(2) obtain tk m dk a where
    parts: "get_prop b target key = Inr tk" "merge b tk v = Inr (m, dk)"
      "Object_assign dk m = Inr a" "y = (key, a)"
    by (auto split: sum.splits)
  have "distinct (map fst upd)"
    using keys distinct_own_keys by (simp add: distinct_filter)
  then have "map_of upd key = Some a"
    using y(2) parts(4) by simp
  then have "own_prop data' key = Some a"
    using assms(2,3) d' by (simp add: own_prop_written_key)
  then have "key \<noteq> Name ''__proto__'' \<longrightarrow> own_prop r key = Some a"
    using own_prop_Object_assign [OF r, of key] by simp
  with parts show ?thesis by blast
qed

lemma merge_keeps_target_only:
  assumes "merge b target data = Inr (r, data')" and "own_prop data key = None"
    and "key \<noteq> Name ''__proto__''"
  shows "own_prop r key = (if truthy target then own_prop target key else None)"
proof -
  from assms(1) obtain upd where
    d': "data' = written data upd"
    and r: "Object_assign (if truthy target then target else JObj []) data' = Inr r"
    by (rule merge_cases)
  have "own_prop data' key = None"
    using assms(2) d' by (simp add: own_prop_written_None)
  then show ?thesis
    using own_prop_Object_assign [OF r assms(3)] by simp
qed




text \<open>
  Where \<^verbatim>\<open>merge\<close> throws instead: the target has no value (or \<^verbatim>\<open>null\<close>) at a key, and the
  incoming object at that key holds an object itself.
\<close>

lemma merge_fails_below_absent_target:
  assumes "own_prop data key = Some dv" and "get_prop b target key = Inr tk"
    and "tk = JUndefined \<or> tk = JNull"
    and "own_prop dv key2 = Some w" and "instanceof_Object w"
  shows "\<exists>e. merge b target data = Inl e"
proof (cases "merge b target data")
  case (Inl e)
  then show ?thesis by blast
next
  case (Inr p)
  obtain r d' where p: "p = (r, d')" by (cases p)
  have obj: "instanceof_Object dv"
    using assms(4,5) by (cases dv) (auto split: key.splits if_splits)
  from merge_recurses [OF Inr [unfolded p] assms(1) obj] assms(2)
  obtain m dk where inner: "merge b tk dv = Inr (m, dk)" by auto
  from merge_recurses [OF inner assms(4,5)] assms(3)
  show ?thesis by (auto simp: get_prop_def)
qed

subsection \<open>Values with plain keys stay within the model\<close>















subsection \<open>The examples of the test suite\<close>

lemma merge_test_suite:
  "merge is_builtin
     (JObj [(Name ''foo'', JStr ''bar''), (Name ''deep'', JObj [(Name ''baz'', JStr ''boat'')])])
     (JObj [(Name ''added'', JBool True),
            (Name ''deep'', JObj [(Name ''ly'', JStr ''added''), (Name ''baz'', JStr ''overriden'')]),
            (Name ''must'', JObj [(Name ''go'', JStr ''deeper'')])])
   = Inr (JObj [(Name ''foo'', JStr ''bar''),
                (Name ''deep'', JObj [(Name ''ly'', JStr ''added''), (Name ''baz'', JStr ''overriden'')]),
                (Name ''added'', JBool True),
                (Name ''must'', JObj [(Name ''go'', JStr ''deeper'')])],
          JObj [(Name ''added'', JBool True),
                (Name ''deep'', JObj [(Name ''ly'', JStr ''added''), (Name ''baz'', JStr ''overriden'')]),
                (Name ''must'', JObj [(Name ''go'', JStr ''deeper'')])])"
  by code_simp

lemma mergeItem_test_suite:
  \<open>forcedAsync (AsyncStorage example_runtime MergeItem)
     [JStr ''deep'', JStr ''{"deep":{"foo":"value"}}'']
     [(JStr ''deep'', ''{"foo":"bar","deep":{"foo":"bar"}}'')]
   = (Resolve RetMap, [(JStr ''deep'', ''{"foo":"bar","deep":{"foo":"value"}}'')])\<close>
  by code_simp

text \<open>A string met as the target's value is not taken for an empty object: its
  characters are copied into the merged object.\<close>

lemma merge_string_target:
  "merge is_builtin (JObj [(Name ''a'', JStr ''xy'')]) (JObj [(Name ''a'', JObj [(Name ''b'', JNum 1)])])
   = Inr (JObj [(Name ''a'', JObj [(Name ''b'', JNum 1), (Idx 0, JStr ''x''), (Idx 1, JStr ''y'')])],
          JObj [(Name ''a'', JObj [(Name ''b'', JNum 1), (Idx 0, JStr ''x''), (Idx 1, JStr ''y'')])])"
  by code_simp

text \<open>A key \<^verbatim>\<open>__proto__\<close> that the target does not own reaches the accessor of
  \<^verbatim>\<open>Object.prototype\<close>, which ignores a number: nothing is written.\<close>

lemma merge_proto_ignored:
  "merge is_builtin (JObj [(Name ''a'', JNum 1)]) (JObj [(Name ''__proto__'', JNum 5)])
   = Inr (JObj [(Name ''a'', JNum 1)], JObj [(Name ''__proto__'', JNum 5)])"
  by code_simp

section \<open>The claims of the specification\<close>

subsection \<open>The deep merge\<close>




text \<open>
  C5 fails on the code. An absent target value is not treated as an empty object when
  the incoming object at that key itself holds an object: \<^verbatim>\<open>merge\<close> reads \<^verbatim>\<open>target[key]\<close> of the
  \<^verbatim>\<open>undefined\<close> target and throws. The target \<^verbatim>\<open>{}\<close> merged with \<^verbatim>\<open>{a: {b: {c: 1}}}\<close> throws a
  \<^verbatim>\<open>TypeError\<close>, through \<^verbatim>\<open>mergeItem\<close> as well, where the target \<^verbatim>\<open>{a: {}}\<close> gives
  \<^verbatim>\<open>{a: {b: {c: 1}}}\<close>. The example of the claim holds.
\<close>

theorem merge_absent_target_throws:
  \<open>merge is_builtin (JObj [])
      (JObj [(Name ''a'', JObj [(Name ''b'', JObj [(Name ''c'', JNum 1)])])])
    = Inl TypeError
   \<and> merge is_builtin (JObj [(Name ''a'', JObj [])])
      (JObj [(Name ''a'', JObj [(Name ''b'', JObj [(Name ''c'', JNum 1)])])])
    = Inr (JObj [(Name ''a'', JObj [(Name ''b'', JObj [(Name ''c'', JNum 1)])])],
           JObj [(Name ''a'', JObj [(Name ''b'', JObj [(Name ''c'', JNum 1)])])])
   \<and> forcedAsync (AsyncStorage example_runtime MergeItem)
        [JStr ''k'', JStr ''{"a":{"b":{"c":1}}}''] [(JStr ''k'', ''{}'')]
    = (Reject TypeError, [(JStr ''k'', ''{}'')])
   \<and> merge is_builtin
        (JObj [(Name ''foo'', JStr ''bar''), (Name ''deep'', JObj [(Name ''foo'', JStr ''bar'')])])
        (JObj [(Name ''deep'', JObj [(Name ''foo'', JStr ''value'')])])
    = Inr (JObj [(Name ''foo'', JStr ''bar''), (Name ''deep'', JObj [(Name ''foo'', JStr ''value'')])],
           JObj [(Name ''deep'', JObj [(Name ''foo'', JStr ''value'')])])\<close>
  by code_simp

theorem merge_absent_target_throws_witness:
  \<open>fst (forcedAsync (AsyncStorage example_runtime MergeItem)
        [JStr ''k'', JStr ''{"a":{"b":{"c":1}}}''] [(JStr ''k'', ''{}'')]) = Reject TypeError\<close>
  using merge_absent_target_throws by simp

subsection \<open>The store\<close>

text \<open>
  C3. For every key \<open>k\<close> and every value \<open>v\<close> that is not a string, \<^verbatim>\<open>setItem(k, v)\<close> throws
  the error \<^verbatim>\<open>AsyncStorage requires strings to be stored\<close> and leaves the store as it was; for
  every string, \<^verbatim>\<open>setItem\<close> stores it under \<open>k\<close>, in place of any value \<open>k\<close> had, and changes
  no other entry.
\<close>

theorem setItem_type_guard:
  "((\<forall>x. v \<noteq> JStr x) \<longrightarrow>
      setItem [k, v] s = (Inl (Error ''AsyncStorage requires strings to be stored''), s))
   \<and> setItem [k, JStr str] s = (Inr RetMap, AList.update k str s)
   \<and> map_of (snd (setItem [k, JStr str] s)) = (map_of s)(k \<mapsto> str)"
  by (simp add: setItem_def arg_simps typeof_string_iff update_conv')

theorem setItem_type_guard_witness:
  "(\<forall>x. JObj [] \<noteq> JStr x)
   \<and> setItem [JStr ''foo'', JObj []] [(JStr ''foo'', ''bar'')]
       = (Inl (Error ''AsyncStorage requires strings to be stored''), [(JStr ''foo'', ''bar'')])
   \<and> setItem [JStr ''foo'', JStr ''baz''] [(JStr ''foo'', ''bar'')]
       = (Inr RetMap, [(JStr ''foo'', ''baz'')])"
  using setItem_type_guard [of "JObj []" "JStr ''foo''" "[(JStr ''foo'', ''bar'')]" "''baz''"]
  by simp

text \<open>
  C4. After \<^verbatim>\<open>setItem(k, v)\<close> with a string \<open>v\<close>, which succeeds, \<^verbatim>\<open>getItem(k)\<close> returns \<open>v\<close>.
  \<^verbatim>\<open>getItem(k)\<close> returns \<^verbatim>\<open>null\<close> when the store has no entry for \<open>k\<close>: in the empty store, and
  after \<^verbatim>\<open>removeItem(k)\<close>. \<^verbatim>\<open>getItem\<close> never throws and never changes the store.
\<close>

theorem getItem_round_trip:
  "fst (setItem [k, JStr v] s) = Inr RetMap
   \<and> getItem [k] (snd (setItem [k, JStr v] s)) = (Inr (Ret (JStr v)), snd (setItem [k, JStr v] s))
   \<and> (map_of s k = None \<longrightarrow> getItem [k] s = (Inr (Ret JNull), s))
   \<and> getItem [k] [] = (Inr (Ret JNull), [])
   \<and> getItem [k] (snd (removeItem [k] s)) = (Inr (Ret JNull), snd (removeItem [k] s))
   \<and> (\<exists>r. getItem args s = (Inr (Ret r), s))"
  by (auto simp: setItem_def getItem_def removeItem_def arg_simps has_def update_conv' delete_conv'
      Let_def)

theorem getItem_round_trip_witness:
  "getItem [JStr ''foo''] (snd (setItem [JStr ''foo'', JStr ''bar''] []))
     = (Inr (Ret (JStr ''bar'')), [(JStr ''foo'', ''bar'')])
   \<and> map_of [(JStr ''foo'', ''bar'')] (JStr ''what'') = None
   \<and> getItem [JStr ''what''] [(JStr ''foo'', ''bar'')] = (Inr (Ret JNull), [(JStr ''foo'', ''bar'')])"
  using getItem_round_trip [of "JStr ''foo''" "''bar''" "[]"]
    getItem_round_trip [of "JStr ''what''" "''x''" "[(JStr ''foo'', ''bar'')]"]
  by (simp add: setItem_def arg_simps)

text \<open>
  C6. \<^verbatim>\<open>multiGet\<close> of a list of keys returns, for each key of the list in the order of the
  list (a repeated key repeatedly), the pair of the key and its stored string, or of the
  key and \<^verbatim>\<open>null\<close> when the store has no entry for it; the store is unchanged.
\<close>

theorem multiGet_pairs:
  "multiGet [JArr names] s =
     (Inr (Ret (JArr (map (\<lambda>name. JArr [name, case map_of s name of
                                                   Some v \<Rightarrow> JStr v | None \<Rightarrow> JNull]) names))), s)"
  by (auto simp: multiGet_def array_elems_def arg_simps has_def split: option.splits)

theorem multiGet_pairs_witness:
  "multiGet [JArr [JStr ''foo.1'', JStr ''foo.2'', JStr ''foo.3'', JStr ''foo.4'']]
     [(JStr ''foo.1'', ''1''), (JStr ''foo.2'', ''2''), (JStr ''foo.4'', ''4'')]
   = (Inr (Ret (JArr [JArr [JStr ''foo.1'', JStr ''1''], JArr [JStr ''foo.2'', JStr ''2''],
                      JArr [JStr ''foo.3'', JNull], JArr [JStr ''foo.4'', JStr ''4'']])),
      [(JStr ''foo.1'', ''1''), (JStr ''foo.2'', ''2''), (JStr ''foo.4'', ''4'')])"
  using multiGet_pairs [of "[JStr ''foo.1'', JStr ''foo.2'', JStr ''foo.3'', JStr ''foo.4'']"
      "[(JStr ''foo.1'', ''1''), (JStr ''foo.2'', ''2''), (JStr ''foo.4'', ''4'')]"]
  by simp

text \<open>
  C7. \<^verbatim>\<open>multiRemove\<close> of a list of keys returns one boolean for each key of the list, in the
  order of the list: whether the store held the key when its turn came, that is, whether
  the store held it at the call and the list does not name it earlier. After the call
  \<^verbatim>\<open>getItem\<close> returns \<^verbatim>\<open>null\<close> for every key of the list, and the other entries are unchanged.
\<close>

theorem multiRemove_reports:
  "\<exists>s'. multiRemove [JArr names] s =
          (Inr (Ret (JArr (map (\<lambda>i. JBool (has s (names ! i) \<and> names ! i \<notin> set (take i names)))
                            [0..<length names]))), s')
        \<and> (\<forall>name \<in> set names. getItem [name] s' = (Inr (Ret JNull), s'))
        \<and> (\<forall>k. k \<notin> set names \<longrightarrow> map_of s' k = map_of s k)"
proof -
  obtain bs s' where run: "multiRemove_map names s = (bs, s')"
    by (cases "multiRemove_map names s")
  have "bs = map (\<lambda>i. has s (names ! i) \<and> names ! i \<notin> set (take i names)) [0..<length names]"
    using multiRemove_map_length [of names s] multiRemove_map_nth [of _ names s] run
    by (intro nth_equalityI) simp_all
  then have "map JBool bs =
      map (\<lambda>i. JBool (has s (names ! i) \<and> names ! i \<notin> set (take i names))) [0..<length names]"
    by simp
  moreover have "map_of s' = map_of s |` (- set names)"
    using multiRemove_map_store [of names s] run by simp
  ultimately show ?thesis
    using run by (simp add: multiRemove_def array_elems_def arg_simps getItem_def has_def)
qed

theorem multiRemove_reports_witness:
  "multiRemove [JArr [JStr ''a'', JStr ''b'', JStr ''c'']] [(JStr ''a'', ''1''), (JStr ''c'', ''3'')]
     = (Inr (Ret (JArr [JBool True, JBool False, JBool True])), [])
   \<and> getItem [JStr ''a''] [] = (Inr (Ret JNull), [])"
proof -
  have run: "multiRemove [JArr [JStr ''a'', JStr ''b'', JStr ''c'']]
      [(JStr ''a'', ''1''), (JStr ''c'', ''3'')]
     = (Inr (Ret (JArr [JBool True, JBool False, JBool True])), [])"
    by code_simp
  from multiRemove_reports [of "[JStr ''a'', JStr ''b'', JStr ''c'']"
      "[(JStr ''a'', ''1''), (JStr ''c'', ''3'')]"]
  show ?thesis using run by auto
qed

text \<open>
  C8. \<^verbatim>\<open>multiSet\<close> of a list of pairs whose values are all strings applies \<^verbatim>\<open>setItem\<close> to each
  pair in the order of the list and returns the list. When a value is not a string, the
  call throws the error \<^verbatim>\<open>AsyncStorage requires strings to be stored\<close>; the pairs before the
  first such pair have been stored, that pair and the pairs after it have not.
\<close>

theorem multiSet_partial_effect:
  "\<forall>p \<in> set pre. typeof (snd p) = ''string'' \<Longrightarrow>
     multiSet rt [JArr (map (\<lambda>(k, v). JArr [k, v]) pre)] s
       = (Inr (Ret (JArr (map (\<lambda>(k, v). JArr [k, v]) pre))),
          fold (\<lambda>(k, v) s. snd (setItem [k, v] s)) pre s)
     \<and> (typeof v \<noteq> ''string'' \<longrightarrow>
          multiSet rt [JArr (map (\<lambda>(k, v). JArr [k, v]) (pre @ (k, v) # post))] s
            = (Inl (Error ''AsyncStorage requires strings to be stored''),
               fold (\<lambda>(k, v) s. snd (setItem [k, v] s)) pre s))"
  by (simp add: multiSet_def array_elems_def arg_simps multiSet_forEach_strings
      multiSet_forEach_stops del: map_append list.map)

theorem multiSet_partial_effect_witness:
  "typeof (snd (JStr ''bar.1'', JStr ''1'')) = ''string''
   \<and> multiSet example_runtime [JArr [JArr [JStr ''bar.1'', JStr ''1'']]] []
       = (Inr (Ret (JArr [JArr [JStr ''bar.1'', JStr ''1'']])), [(JStr ''bar.1'', ''1'')])
   \<and> multiSet example_runtime
        [JArr [JArr [JStr ''bar.1'', JStr ''1''],
               JArr [JStr ''bar.2'', JObj [(Name ''key'', JStr ''value'')]],
               JArr [JStr ''bar.3'', JStr ''3'']]] []
       = (Inl (Error ''AsyncStorage requires strings to be stored''), [(JStr ''bar.1'', ''1'')])"
proof -
  have h: "\<forall>p \<in> set [(JStr ''bar.1'', JStr ''1'')]. typeof (snd p) = ''string''"
    by simp
  from multiSet_partial_effect [OF h, of example_runtime "[]"
      "JObj [(Name ''key'', JStr ''value'')]" "JStr ''bar.2''" "[(JStr ''bar.3'', JStr ''3'')]"]
  show ?thesis by (simp add: setItem_def arg_simps)
qed

text \<open>
  C10. For every key with no entry in the store and every string \<open>v\<close>, \<^verbatim>\<open>mergeItem(k, v)\<close>
  throws the \<^verbatim>\<open>SyntaxError\<close> of \<^verbatim>\<open>JSON.parse\<close>, which reads the absent value as a JSON text
  instead of taking an empty object. The store is unchanged; the wrapper rejects the
  promise with that error, or hands it to the callback.
\<close>

theorem mergeItem_absent_key:
  "map_of s k = None \<Longrightarrow>
     mergeItem rt [k, JStr v] s = (Inl SyntaxError, s)
     \<and> forcedAsync (AsyncStorage rt MergeItem) [k, JStr v] s = (Reject SyntaxError, s)
     \<and> forcedAsync (AsyncStorage rt MergeItem) [k, JStr v, JFun f] s
         = (Callback (JFun f) (Some SyntaxError) (Ret JUndefined), s)"
  using forcedAsync_callback [of "mergeItem rt" "[k, JStr v]" f s]
  by (simp add: mergeItem_absent forcedAsync_promise last_arg_def)

theorem mergeItem_absent_key_witness:
  "map_of [(JStr ''other'', ''{}'')] (JStr ''json'') = None
   \<and> forcedAsync (AsyncStorage example_runtime MergeItem) [JStr ''json'', JStr ''{}'']
        [(JStr ''other'', ''{}'')]
       = (Reject SyntaxError, [(JStr ''other'', ''{}'')])"
proof -
  have h: "map_of [(JStr ''other'', ''{}'')] (JStr ''json'') = None"
    by simp
  from mergeItem_absent_key [OF h, of example_runtime "''{}''"] h
  show ?thesis by simp
qed

subsection \<open>The wrapper\<close>

text \<open>
  C2 (amended). A method called with a function as its last argument ends by calling
  that function with \<^verbatim>\<open>(error, result)\<close>. When the method returns, \<^verbatim>\<open>error\<close> is \<^verbatim>\<open>null\<close> and
  \<^verbatim>\<open>result\<close> is what the method returned: \<^verbatim>\<open>null\<close> for \<^verbatim>\<open>getItem\<close> of a key with no entry, and
  \<^verbatim>\<open>undefined\<close> for \<^verbatim>\<open>clear\<close>, \<^verbatim>\<open>flushGetRequests\<close> and \<^verbatim>\<open>multiMerge\<close>. When the method throws,
  \<^verbatim>\<open>error\<close> is what it threw and \<^verbatim>\<open>result\<close> is \<^verbatim>\<open>undefined\<close>. So \<^verbatim>\<open>error\<close> and \<^verbatim>\<open>result\<close> are never
  both set.
\<close>

theorem callback_error_result:
  "forcedAsync (AsyncStorage rt m) (args @ [JFun f]) s =
     (case AsyncStorage rt m args s of
        (Inl e, s') \<Rightarrow> (Callback (JFun f) (Some e) (Ret JUndefined), s')
      | (Inr r, s') \<Rightarrow> (Callback (JFun f) None r, s'))
   \<and> (map_of s k = None \<longrightarrow>
        forcedAsync (AsyncStorage rt GetItem) [k, JFun f] s = (Callback (JFun f) None (Ret JNull), s))
   \<and> forcedAsync (AsyncStorage rt Clear) [JFun f] s = (Callback (JFun f) None (Ret JUndefined), [])
   \<and> forcedAsync (AsyncStorage rt FlushGetRequests) [JFun f] s
        = (Callback (JFun f) None (Ret JUndefined), s)
   \<and> (\<forall>e r s'. forcedAsync (AsyncStorage rt MultiMerge) (args @ [JFun f]) s = (Callback (JFun f) e r, s')
        \<longrightarrow> r = Ret JUndefined)"
proof -
  have gen: "forcedAsync fn (as @ [JFun f]) s =
     (case fn as s of
        (Inl e, s') \<Rightarrow> (Callback (JFun f) (Some e) (Ret JUndefined), s')
      | (Inr r, s') \<Rightarrow> (Callback (JFun f) None r, s'))" for fn as
    by (rule forcedAsync_callback)
  have "forcedAsync (AsyncStorage rt GetItem) [k, JFun f] s = (Callback (JFun f) None (Ret JNull), s)"
    if "map_of s k = None"
    using gen [of getItem "[k]"] that by (simp add: getItem_def arg_simps has_def)
  moreover have "forcedAsync (AsyncStorage rt Clear) [JFun f] s = (Callback (JFun f) None (Ret JUndefined), [])"
    using gen [of clear "[]"] by (simp add: clear_def)
  moreover have "forcedAsync (AsyncStorage rt FlushGetRequests) [JFun f] s
        = (Callback (JFun f) None (Ret JUndefined), s)"
    using gen [of flushGetRequests "[]"] by (simp add: flushGetRequests_def)
  moreover have "r = Ret JUndefined"
    if "forcedAsync (AsyncStorage rt MultiMerge) (args @ [JFun f]) s = (Callback (JFun f) e r, s')"
    for e r s'
    using that multiMerge_result [of rt args s r] gen [of "multiMerge rt" args]
    by (auto split: prod.splits sum.splits)
  ultimately show ?thesis
    using gen [of "AsyncStorage rt m" args] by blast
qed

theorem callback_error_result_witness:
  "map_of [] (JStr ''foocb'') = None
   \<and> forcedAsync (AsyncStorage example_runtime SetItem) [JStr ''foocb'', JStr ''cb'', JFun 0] []
       = (Callback (JFun 0) None RetMap, [(JStr ''foocb'', ''cb'')])
   \<and> forcedAsync (AsyncStorage example_runtime SetItem) [JStr ''foocb'', JObj [], JFun 0] []
       = (Callback (JFun 0) (Some (Error ''AsyncStorage requires strings to be stored''))
            (Ret JUndefined), [])
   \<and> forcedAsync (AsyncStorage example_runtime GetItem) [JStr ''foocb'', JFun 0] []
       = (Callback (JFun 0) None (Ret JNull), [])"
  using callback_error_result [of example_runtime SetItem "[JStr ''foocb'', JStr ''cb'']" 0 "[]"
      "JStr ''foocb''"]
    callback_error_result [of example_runtime SetItem "[JStr ''foocb'', JObj []]" 0 "[]"
      "JStr ''foocb''"]
  by (simp add: setItem_def arg_simps)

text \<open>
  C2 as stated fails: \<^verbatim>\<open>getItem\<close> of a key with no entry succeeds and calls the callback
  with \<^verbatim>\<open>(null, null)\<close>.
\<close>

theorem getItem_callback_null_null:
  "forcedAsync (AsyncStorage example_runtime GetItem) [JStr ''missing'', JFun 0] []
     = (Callback (JFun 0) None (Ret JNull), [])"
  by code_simp

end
